theory Spec2Isabelle
  imports Complex_Main "HOL-Library.Char_ord" "HOL-Library.List_Lexorder"
    "HOL-Library.Option_ord" "HOL-Library.Sublist"
begin

section \<open>Tables\<close>

text \<open>
  \<^verbatim>\<open>app.py\<close> is a script over two pandas data frames, \<^verbatim>\<open>raw\<close> and \<^verbatim>\<open>clean\<close>, read
  by \<^verbatim>\<open>pd.read_csv\<close>. A data frame is an ordered collection of named, typed columns
  over a common row index. The column types are the dtypes a frame can carry: 64-bit
  integers (never missing), floats (\<open>None\<close> is NaN), booleans, Python objects (strings,
  \<open>None\<close> is a missing entry) and timestamps.

  Floating-point values are idealised as real numbers: sums, quotients and roundings are
  exact. Comparisons of stored values, on which sorting, maxima and range tests rest, are
  exact in the program as well.
\<close>

datatype dtype = Int64 | Float64 | Bool | Object | Datetime64

datatype series =
    IntS "int list"
  | FloatS "real option list"
  | BoolS "bool list"
  | ObjS "string option list"
  | DatetimeS "int list"

datatype scalar = I int | F real | NaN | B bool | S string | T int

datatype error = KeyError scalar | ValueError | TypeError | IndexError | StreamlitAPIException

record dataframe =
  index :: "nat list"
  data :: "(string \<times> series) list"

fun dtype_of :: "series \<Rightarrow> dtype" where
  "dtype_of (IntS _) = Int64"
| "dtype_of (FloatS _) = Float64"
| "dtype_of (BoolS _) = Bool"
| "dtype_of (ObjS _) = Object"
| "dtype_of (DatetimeS _) = Datetime64"

fun cells :: "series \<Rightarrow> scalar list" where
  "cells (IntS xs) = map I xs"
| "cells (FloatS xs) = map (\<lambda>x. case x of None \<Rightarrow> NaN | Some v \<Rightarrow> F v) xs"
| "cells (BoolS xs) = map B xs"
| "cells (ObjS xs) = map (\<lambda>x. case x of None \<Rightarrow> NaN | Some v \<Rightarrow> S v) xs"
| "cells (DatetimeS xs) = map T xs"

definition len_series :: "series \<Rightarrow> nat" where
  "len_series s = length (cells s)"

text \<open>\<^verbatim>\<open>df.columns\<close> and \<^verbatim>\<open>len(df)\<close>.\<close>

definition columns :: "dataframe \<Rightarrow> string list" where
  "columns df = map fst (data df)"

definition len :: "dataframe \<Rightarrow> nat" where
  "len df = length (index df)"

text \<open>
  What \<^verbatim>\<open>pd.read_csv\<close> returns with its default arguments: column names are distinct
  (repeated header names are renamed), every column has one cell per row, and the row
  labels are \<open>0, 1, \<dots>, n - 1\<close>.
\<close>

definition rectangular :: "dataframe \<Rightarrow> bool" where
  "rectangular df \<longleftrightarrow> list_all (\<lambda>(n, s). len_series s = len df) (data df)"

definition loaded :: "dataframe \<Rightarrow> bool" where
  "loaded df \<longleftrightarrow> distinct (columns df) \<and> rectangular df \<and> index df = [0 ..< len df]"

text \<open>\<^verbatim>\<open>df[name]\<close>: the column, or \<^verbatim>\<open>KeyError\<close> when the frame has no such column.\<close>

definition getitem :: "dataframe \<Rightarrow> string \<Rightarrow> error + series" where
  "getitem df name =
     (case map_of (data df) name of
        None \<Rightarrow> Inl (KeyError (S name))
      | Some s \<Rightarrow> Inr s)"

text \<open>Sequencing of steps that may raise: the first exception ends the computation.\<close>

definition bindE :: "error + 'a \<Rightarrow> ('a \<Rightarrow> error + 'b) \<Rightarrow> error + 'b" where
  "bindE m f = (case m of Inl e \<Rightarrow> Inl e | Inr x \<Rightarrow> f x)"

section \<open>Operations on columns\<close>

text \<open>
  The pandas operations the script calls, each on the column types it is defined for.
  A numeric reduction sees integers, floats and booleans (as 0 and 1) as numbers and
  raises \<^verbatim>\<open>TypeError\<close> on strings and timestamps.
\<close>

fun to_reals :: "series \<Rightarrow> real option list option" where
  "to_reals (IntS xs) = Some (map (\<lambda>x. Some (of_int x)) xs)"
| "to_reals (FloatS xs) = Some xs"
| "to_reals (BoolS xs) = Some (map (\<lambda>b. Some (if b then 1 else 0)) xs)"
| "to_reals (ObjS xs) = None"
| "to_reals (DatetimeS xs) = None"

text \<open>\<^verbatim>\<open>skipna=True\<close>, \<^verbatim>\<open>dropna=True\<close>: the entries that are present, in order.\<close>

fun dropna :: "'a option list \<Rightarrow> 'a list" where
  "dropna [] = []"
| "dropna (None # xs) = dropna xs"
| "dropna (Some x # xs) = x # dropna xs"

text \<open>\<^verbatim>\<open>Series.mean()\<close>: NaN (\<open>None\<close>) when no value is present.\<close>

definition mean :: "series \<Rightarrow> error + real option" where
  "mean s =
     (case to_reals s of
        None \<Rightarrow> Inl TypeError
      | Some xs \<Rightarrow>
          (let vs = dropna xs
           in Inr (if vs = [] then None else Some (sum_list vs / of_nat (length vs)))))"

text \<open>
  \<^verbatim>\<open>Series.min()\<close> and \<^verbatim>\<open>Series.max()\<close>, as the slider reads them: NaN on no value.
  On a column of strings or timestamps the slider cannot be built from integers; the
  script then fails in \<^verbatim>\<open>int\<close> or in \<^verbatim>\<open>between\<close>, and the model raises
  \<^verbatim>\<open>TypeError\<close> at the reduction already.
\<close>

definition series_min :: "series \<Rightarrow> error + real option" where
  "series_min s =
     (case to_reals s of
        None \<Rightarrow> Inl TypeError
      | Some xs \<Rightarrow>
          (case dropna xs of [] \<Rightarrow> Inr None | v # vs \<Rightarrow> Inr (Some (fold min vs v))))"

definition series_max :: "series \<Rightarrow> error + real option" where
  "series_max s =
     (case to_reals s of
        None \<Rightarrow> Inl TypeError
      | Some xs \<Rightarrow>
          (case dropna xs of [] \<Rightarrow> Inr None | v # vs \<Rightarrow> Inr (Some (fold max vs v))))"

text \<open>Python's \<^verbatim>\<open>int(x)\<close> on a float truncates towards zero and raises
  \<^verbatim>\<open>ValueError\<close> on NaN.\<close>

definition py_int :: "real option \<Rightarrow> error + int" where
  "py_int x =
     (case x of
        None \<Rightarrow> Inl ValueError
      | Some v \<Rightarrow> Inr (if 0 \<le> v then \<lfloor>v\<rfloor> else \<lceil>v\<rceil>))"

text \<open>\<^verbatim>\<open>round(x, n)\<close>: to \<open>n\<close> decimals, halves to the even neighbour; NaN stays NaN.\<close>

definition round_half_even :: "real \<Rightarrow> int" where
  "round_half_even r =
     (let f = \<lfloor>r\<rfloor>; d = r - of_int f
      in if d < 1 / 2 then f else if 1 / 2 < d then f + 1 else if even f then f else f + 1)"

definition py_round :: "real option \<Rightarrow> nat \<Rightarrow> real option" where
  "py_round x n =
     (case x of
        None \<Rightarrow> None
      | Some v \<Rightarrow> Some (of_int (round_half_even (v * 10 ^ n)) / 10 ^ n))"

text \<open>\<^verbatim>\<open>Series.unique()\<close>: the distinct values in order of first appearance (NaN
  included). \<^verbatim>\<open>Series.nunique()\<close>: the number of distinct values that are present.\<close>

fun unique_list :: "'a list \<Rightarrow> 'a list" where
  "unique_list [] = []"
| "unique_list (x # xs) = x # filter (\<lambda>y. y \<noteq> x) (unique_list xs)"

definition unique :: "series \<Rightarrow> scalar list" where
  "unique s = unique_list (cells s)"

definition nunique :: "series \<Rightarrow> nat" where
  "nunique s = length (unique_list (filter (\<lambda>v. v \<noteq> NaN) (cells s)))"

text \<open>\<^verbatim>\<open>Series.isin(values)\<close> and \<^verbatim>\<open>Series.between(left, right)\<close> (both ends
  inclusive), one boolean per row. NaN is in no interval. Comparing a string or a
  timestamp with an integer raises \<^verbatim>\<open>TypeError\<close>.\<close>

definition isin :: "series \<Rightarrow> scalar list \<Rightarrow> bool list" where
  "isin s vals = map (\<lambda>v. v \<in> set vals) (cells s)"

fun between :: "series \<Rightarrow> int \<Rightarrow> int \<Rightarrow> error + bool list" where
  "between (IntS xs) left right = Inr (map (\<lambda>x. left \<le> x \<and> x \<le> right) xs)"
| "between (FloatS xs) left right =
     Inr (map (\<lambda>x. case x of None \<Rightarrow> False
                  | Some v \<Rightarrow> of_int left \<le> v \<and> v \<le> of_int right) xs)"
| "between (BoolS xs) left right =
     Inr (map (\<lambda>b. left \<le> (if b then 1 else 0) \<and> (if b then 1 else 0) \<le> right) xs)"
| "between (ObjS xs) left right =
     (if dropna xs = [] then Inr (map (\<lambda>x. False) xs) else Inl TypeError)"
| "between (DatetimeS xs) left right = Inl TypeError"

text \<open>\<^verbatim>\<open>df[mask]\<close>: the rows at which the boolean mask is true, in every column and in
  the index.\<close>

fun compress :: "bool list \<Rightarrow> 'a list \<Rightarrow> 'a list" where
  "compress (m # ms) (x # xs) = (if m then x # compress ms xs else compress ms xs)"
| "compress _ _ = []"

fun series_compress :: "bool list \<Rightarrow> series \<Rightarrow> series" where
  "series_compress keep (IntS xs) = IntS (compress keep xs)"
| "series_compress keep (FloatS xs) = FloatS (compress keep xs)"
| "series_compress keep (BoolS xs) = BoolS (compress keep xs)"
| "series_compress keep (ObjS xs) = ObjS (compress keep xs)"
| "series_compress keep (DatetimeS xs) = DatetimeS (compress keep xs)"

definition boolean_index :: "dataframe \<Rightarrow> bool list \<Rightarrow> dataframe" where
  "boolean_index df keep =
     \<lparr>index = compress keep (index df),
      data = map (\<lambda>(n, s). (n, series_compress keep s)) (data df)\<rparr>"

text \<open>The rows of a frame: each row lists the cells of that row, column by column.\<close>

fun rows_of :: "(string \<times> series) list \<Rightarrow> nat \<Rightarrow> (string \<times> scalar) list list" where
  "rows_of [] n = replicate n []"
| "rows_of ((name, s) # cs) n = map2 (\<lambda>v r. (name, v) # r) (cells s) (rows_of cs n)"

definition to_rows :: "dataframe \<Rightarrow> (string \<times> scalar) list list" where
  "to_rows df = rows_of (data df) (len df)"

text \<open>
  \<^verbatim>\<open>Series.idxmax()\<close>: the row label of the first occurrence of the greatest present
  value; \<^verbatim>\<open>ValueError\<close> when no value is present, \<^verbatim>\<open>TypeError\<close> on an object column.
  Timestamps are ordered by their clock value.
\<close>

fun sort_keys :: "series \<Rightarrow> real option list option" where
  "sort_keys (DatetimeS xs) = Some (map (\<lambda>x. Some (of_int x)) xs)"
| "sort_keys s = to_reals s"

fun labelled :: "nat list \<Rightarrow> 'a option list \<Rightarrow> (nat \<times> 'a) list" where
  "labelled (l # ls) (Some v # xs) = (l, v) # labelled ls xs"
| "labelled (l # ls) (None # xs) = labelled ls xs"
| "labelled _ _ = []"

fun first_max :: "(nat \<times> real) \<Rightarrow> (nat \<times> real) list \<Rightarrow> nat \<times> real" where
  "first_max best [] = best"
| "first_max best (p # ps) = first_max (if snd best < snd p then p else best) ps"

definition idxmax :: "nat list \<Rightarrow> series \<Rightarrow> error + nat" where
  "idxmax idx s =
     (case sort_keys s of
        None \<Rightarrow> Inl TypeError
      | Some xs \<Rightarrow>
          (case labelled idx xs of
             [] \<Rightarrow> Inl ValueError
           | p # ps \<Rightarrow> Inr (fst (first_max p ps))))"

text \<open>\<^verbatim>\<open>df.loc[label, name]\<close>: the cell of column \<open>name\<close> in the row labelled
  \<open>label\<close>.\<close>

definition loc :: "dataframe \<Rightarrow> nat \<Rightarrow> string \<Rightarrow> error + scalar" where
  "loc df label name =
     bindE (getitem df name) (\<lambda>s.
       case map_of (zip (index df) (cells s)) label of
         None \<Rightarrow> Inl (KeyError (I (int label)))
       | Some v \<Rightarrow> Inr v)"

text \<open>
  \<^verbatim>\<open>Series.mode()\<close>: the present values that occur most often, as a new series in
  sorted order (pandas sorts the modes after counting). \<^verbatim>\<open>[0]\<close> on the result is its
  first entry, \<^verbatim>\<open>KeyError\<close> when the result is empty. Strings are ordered as Python
  orders them, character by character.
\<close>

definition max_count :: "'a list \<Rightarrow> nat" where
  "max_count xs = fold max (map (count_list xs) xs) 0"

definition mode_list :: "('a :: linorder) list \<Rightarrow> 'a list" where
  "mode_list xs = sort (remdups (filter (\<lambda>x. count_list xs x = max_count xs) xs))"

fun mode :: "series \<Rightarrow> scalar list" where
  "mode (IntS xs) = map I (mode_list xs)"
| "mode (FloatS xs) = map F (mode_list (dropna xs))"
| "mode (BoolS xs) = map B (mode_list xs)"
| "mode (ObjS xs) = map S (mode_list (dropna xs))"
| "mode (DatetimeS xs) = map T (mode_list xs)"

definition item :: "'a list \<Rightarrow> nat \<Rightarrow> error + 'a" where
  "item xs i = (if i < length xs then Inr (xs ! i) else Inl (KeyError (I (int i))))"

text \<open>
  \<^verbatim>\<open>Series.corr\<close>, Pearson's coefficient over the rows where both values are present:
  NaN when there is no such row or when the product of the two sums of squared
  deviations is zero.
\<close>

fun pairs :: "'a option list \<Rightarrow> 'b option list \<Rightarrow> ('a \<times> 'b) list" where
  "pairs (Some x # xs) (Some y # ys) = (x, y) # pairs xs ys"
| "pairs (_ # xs) (_ # ys) = pairs xs ys"
| "pairs _ _ = []"

definition pearson :: "real option list \<Rightarrow> real option list \<Rightarrow> real option" where
  "pearson xs ys =
     (let ps = pairs xs ys; n = of_nat (length ps)
      in if ps = [] then None
         else
           (let mx = sum_list (map fst ps) / n;
                my = sum_list (map snd ps) / n;
                cov = sum_list (map (\<lambda>(x, y). (x - mx) * (y - my)) ps);
                ssx = sum_list (map (\<lambda>(x, y). (x - mx) * (x - mx)) ps);
                ssy = sum_list (map (\<lambda>(x, y). (y - my) * (y - my)) ps);
                divisor = sqrt (ssx * ssy)
            in if divisor = 0 then None else Some (cov / divisor)))"

text \<open>
  \<^verbatim>\<open>df.corr()[name]\<close>: the column \<open>name\<close> of the correlation matrix of \<open>df\<close>, one entry
  per column of \<open>df\<close>, in column order, labelled by the column names. A column of
  strings or timestamps makes \<^verbatim>\<open>corr\<close> raise \<^verbatim>\<open>ValueError\<close>; the script passes numeric
  columns only.
\<close>

fun numeric_data :: "(string \<times> series) list \<Rightarrow> (string \<times> real option list) list option" where
  "numeric_data [] = Some []"
| "numeric_data ((n, s) # cs) =
     (case to_reals s of
        None \<Rightarrow> None
      | Some xs \<Rightarrow> (case numeric_data cs of None \<Rightarrow> None | Some r \<Rightarrow> Some ((n, xs) # r)))"

definition corr_column :: "dataframe \<Rightarrow> string \<Rightarrow> error + (string \<times> real option) list" where
  "corr_column df name =
     (case numeric_data (data df) of
        None \<Rightarrow> Inl ValueError
      | Some cs \<Rightarrow>
          (case map_of cs name of
             None \<Rightarrow> Inl (KeyError (S name))
           | Some ref \<Rightarrow> Inr (map (\<lambda>(n, xs). (n, pearson xs ref)) cs)))"

text \<open>
  \<^verbatim>\<open>Series.sort_values(ascending=False)\<close>, as pandas' \<open>nargsort\<close> computes it: the
  present entries are reversed, sorted in ascending order by numpy's \<^verbatim>\<open>argsort\<close>, and
  reversed again; the NaN entries follow in their original order. The script passes no
  \<^verbatim>\<open>kind\<close>, so the sort is numpy's default quicksort, which does not fix the order of
  equal values: \<open>argsort\<close> is a parameter here, the function that returns the positions
  of a list of numbers in ascending order of value. \<^verbatim>\<open>.index[i]\<close> is the label at
  position \<open>i\<close>, \<^verbatim>\<open>IndexError\<close> beyond the end.
\<close>

fun present :: "('a \<times> 'b option) list \<Rightarrow> ('a \<times> 'b) list" where
  "present [] = []"
| "present ((n, Some v) # r) = (n, v) # present r"
| "present ((n, None) # r) = present r"

definition sort_values_desc ::
    "(real list \<Rightarrow> nat list) \<Rightarrow> (string \<times> real option) list \<Rightarrow> (string \<times> real option) list" where
  "sort_values_desc argsort ser =
     (let non_nans = rev (present ser);
          sorted_entries = map (\<lambda>i. non_nans ! i) (argsort (map snd non_nans))
      in map (\<lambda>(n, v). (n, Some v)) (rev sorted_entries) @ filter (\<lambda>(n, v). v = None) ser)"

text \<open>One such function, sorting by insertion, with which the pages are run on the
  tables below.\<close>

definition insertion_argsort :: "real list \<Rightarrow> nat list" where
  "insertion_argsort xs = map fst (sort_key snd (zip [0 ..< length xs] xs))"

definition index_at :: "(string \<times> 'a) list \<Rightarrow> nat \<Rightarrow> error + string" where
  "index_at ser i = (if i < length ser then Inr (fst (ser ! i)) else Inl IndexError)"

section \<open>Column Classifier\<close>

text \<open>
  \<^verbatim>\<open>num_cols = df.select_dtypes(include=np.number).columns.tolist()\<close>
  \<^verbatim>\<open>cat_cols = df.select_dtypes(include="object").columns.tolist()\<close>
  \<^verbatim>\<open>np.number\<close> covers the integer and floating dtypes; booleans and timestamps are not
  numbers and are not objects.
\<close>

fun is_number :: "dtype \<Rightarrow> bool" where
  "is_number Int64 = True"
| "is_number Float64 = True"
| "is_number _ = False"

definition select_dtypes :: "(dtype \<Rightarrow> bool) \<Rightarrow> dataframe \<Rightarrow> dataframe" where
  "select_dtypes include df = df\<lparr>data := filter (\<lambda>(n, s). include (dtype_of s)) (data df)\<rparr>"

definition num_cols :: "dataframe \<Rightarrow> string list" where
  "num_cols df = columns (select_dtypes is_number df)"

definition cat_cols :: "dataframe \<Rightarrow> string list" where
  "cat_cols df = columns (select_dtypes (\<lambda>d. d = Object) df)"

section \<open>Chart Selector\<close>

text \<open>
  The seaborn calls of the analysis page, as chart descriptors: each constructor is one
  call with the arguments the script passes. Rendering is seaborn's and matplotlib's.
\<close>

datatype chart =
    Countplot_y string
  | Histplot_kde string
  | Kdeplot_fill string
  | Boxplot_x string
  | Scatterplot string string
  | Boxplot string string
  | Countplot_hue string string
  | Heatmap_corr "string list"
  | Pairplot "string list"
  | Barplot string string "string option"

datatype metric_value = Count nat | Whole int | Float "real option" | Value scalar | Name string

datatype ui =
    Metric string metric_value
  | Write string metric_value
  | Write_correlation string string
  | Show_raw
  | Show_clean
  | Map_of string string
  | Info string
  | Warning string
  | Chart chart

datatype view_type = Histogram | KDE | Boxplot_view

datatype mv_method = Heatmap | Pairplot_method | Grouped_Bar

text \<open>Univariate analysis, lines 116-129: \<^verbatim>\<open>col\<close> is the chosen column, \<open>view\<close> the choice of
  the radio button \<^verbatim>\<open>dist\<close>, which is shown only in the \<^verbatim>\<open>else\<close> branch.\<close>

definition univariate :: "string list \<Rightarrow> string \<Rightarrow> view_type \<Rightarrow> chart" where
  "univariate cat col view =
     (if col \<in> set cat then Countplot_y col
      else (case view of
              Histogram \<Rightarrow> Histplot_kde col
            | KDE \<Rightarrow> Kdeplot_fill col
            | Boxplot_view \<Rightarrow> Boxplot_x col))"

text \<open>Bivariate analysis, lines 143-154. \<open>Boxplot a b\<close> is \<^verbatim>\<open>sns.boxplot(x=a, y=b)\<close>: one
  box of the values of \<open>b\<close> per value of \<open>a\<close>. \<open>Countplot_hue a b\<close> is
  \<^verbatim>\<open>sns.countplot(x=a, hue=b)\<close>. \<open>Write_correlation x y\<close> is the line
  \<^verbatim>\<open>st.write("Correlation:", round(df[x].corr(df[y]),3))\<close>.\<close>

definition bivariate :: "string list \<Rightarrow> string list \<Rightarrow> string \<Rightarrow> string \<Rightarrow> ui list" where
  "bivariate num cat x y =
     (if x \<in> set num \<and> y \<in> set num then [Chart (Scatterplot x y), Write_correlation x y]
      else if x \<in> set num \<and> y \<in> set cat then [Chart (Boxplot y x)]
      else if x \<in> set cat \<and> y \<in> set num then [Chart (Boxplot x y)]
      else [Chart (Countplot_hue x y)])"

text \<open>Multivariate analysis, lines 165-190.\<close>

definition multivariate :: "dataframe \<Rightarrow> mv_method \<Rightarrow> ui list" where
  "multivariate df option =
     (case option of
        Heatmap \<Rightarrow> [Chart (Heatmap_corr (num_cols df))]
      | Pairplot_method \<Rightarrow> [Chart (Pairplot (num_cols df))]
      | Grouped_Bar \<Rightarrow>
          (if ''Fuel_Type'' \<in> set (columns df) \<and> ''Price'' \<in> set (columns df)
           then [Chart (Barplot ''Fuel_Type'' ''Price''
                   (if ''Transmission'' \<in> set (columns df) then Some ''Transmission'' else None))]
           else [Warning ''Required columns missing'']))"

section \<open>Pages\<close>

text \<open>
  A page is a sequence of statements, each of which either raises or puts elements on the
  screen. Nothing in the script catches an exception: the first statement that raises ends
  the run, and what was put on the screen before stays there. Headings and fixed prose are
  left out.
\<close>

fun run :: "(error + ui list) list \<Rightarrow> ui list \<times> error option" where
  "run [] = ([], None)"
| "run (Inl e # ss) = ([], Some e)"
| "run (Inr out # ss) = (out @ fst (run ss), snd (run ss))"

subsection \<open>Introduction, lines 54-74\<close>

definition introduction_page :: "dataframe \<Rightarrow> ui list \<times> error option" where
  "introduction_page clean = run
     [Inr [Metric ''Total Cars'' (Count (len clean))],
      bindE (getitem clean ''Price'') (\<lambda>p.
        bindE (mean p) (\<lambda>m. Inr [Metric ''Average Price'' (Float (py_round m 2))])),
      bindE (getitem clean ''Kilometers_Driven'') (\<lambda>k.
        bindE (mean k) (\<lambda>m.
          bindE (py_int m) (\<lambda>i. Inr [Metric ''Average KM'' (Whole i)]))),
      bindE (getitem clean ''Company_Name'') (\<lambda>c.
        Inr [Metric ''Total Companies'' (Count (nunique c))]),
      Inr [Show_raw, Show_clean],
      Inr (if ''Latitude'' \<in> set (columns clean) \<and> ''Longitude'' \<in> set (columns clean)
           then [Map_of ''Latitude'' ''Longitude'']
           else [Info ''Latitude and Longitude not available''])]"

subsection \<open>Analysis, lines 82-190\<close>

text \<open>
  The sidebar, lines 82-93: the options (and the default) of the company multiselect are
  the distinct company names; the bounds (and the default) of the year slider are
  \<^verbatim>\<open>int(clean["Year"].min())\<close> and \<^verbatim>\<open>int(clean["Year"].max())\<close>. What the user has
  chosen in the widgets of the page is the record \<open>controls\<close>.
\<close>

definition company_options :: "dataframe \<Rightarrow> error + scalar list" where
  "company_options clean = bindE (getitem clean ''Company_Name'') (\<lambda>c. Inr (unique c))"

definition year_bounds :: "dataframe \<Rightarrow> error + int \<times> int" where
  "year_bounds clean =
     bindE (getitem clean ''Year'') (\<lambda>yr.
       bindE (series_min yr) (\<lambda>lo.
         bindE (py_int lo) (\<lambda>l.
           bindE (series_max yr) (\<lambda>hi.
             bindE (py_int hi) (\<lambda>h. Inr (l, h))))))"

text \<open>\<^verbatim>\<open>st.sidebar.slider\<close> with these bounds and with both of them as its default value:
  the widget raises when its lower bound is not below its upper bound.\<close>

definition year_slider :: "dataframe \<Rightarrow> error + int \<times> int" where
  "year_slider clean =
     bindE (year_bounds clean) (\<lambda>bounds.
       if fst bounds < snd bounds then Inr bounds else Inl StreamlitAPIException)"

record controls =
  sel_company :: "scalar list"
  sel_year :: "int \<times> int"
  sel_col :: string
  sel_view :: view_type
  sel_x :: string
  sel_y :: string
  sel_method :: mv_method

text \<open>The Filter Engine, lines 95-96:
  \<^verbatim>\<open>df = clean[(clean["Company_Name"].isin(company)) & (clean["Year"].between(year[0],year[1]))]\<close>\<close>

definition filter_engine :: "dataframe \<Rightarrow> scalar list \<Rightarrow> int \<times> int \<Rightarrow> error + dataframe" where
  "filter_engine clean company year =
     bindE (getitem clean ''Company_Name'') (\<lambda>c.
       bindE (getitem clean ''Year'') (\<lambda>yr.
         bindE (between yr (fst year) (snd year)) (\<lambda>b.
           Inr (boolean_index clean (map2 (\<lambda>p q. p \<and> q) (isin c company) b)))))"

text \<open>The metrics of the subset, lines 105-107.\<close>

definition average_metric :: "dataframe \<Rightarrow> string \<Rightarrow> string \<Rightarrow> error + ui list" where
  "average_metric df label name =
     bindE (getitem df name) (\<lambda>s.
       bindE (mean s) (\<lambda>m. Inr [Metric label (Float (py_round m 2))]))"

definition metrics :: "dataframe \<Rightarrow> (error + ui list) list" where
  "metrics df =
     [Inr [Metric ''Selected Cars'' (Count (len df))],
      average_metric df ''Average Price'' ''Price'',
      average_metric df ''Average Power'' ''Power_value'']"

definition analysis_page :: "dataframe \<Rightarrow> controls \<Rightarrow> ui list \<times> error option" where
  "analysis_page clean c =
     (case bindE (company_options clean) (\<lambda>options.
             bindE (year_slider clean) (\<lambda>bounds.
               filter_engine clean (sel_company c) (sel_year c))) of
        Inl e \<Rightarrow> ([], Some e)
      | Inr df \<Rightarrow>
          run (metrics df @
            [Inr [Chart (univariate (cat_cols df) (sel_col c) (sel_view c))],
             Inr (bivariate (num_cols df) (cat_cols df) (sel_x c) (sel_y c)),
             Inr (multivariate df (sel_method c))]))"

subsection \<open>Conclusions, lines 220-230\<close>

definition highest_price_car :: "dataframe \<Rightarrow> error + scalar" where
  "highest_price_car clean =
     bindE (getitem clean ''Price'') (\<lambda>p.
       bindE (idxmax (index clean) p) (\<lambda>l. loc clean l ''Company_Name''))"

definition most_common_fuel :: "dataframe \<Rightarrow> error + scalar" where
  "most_common_fuel clean = bindE (getitem clean ''Fuel_Type'') (\<lambda>f. item (mode f) 0)"

definition strongest_correlation :: "(real list \<Rightarrow> nat list) \<Rightarrow> dataframe \<Rightarrow> error + string" where
  "strongest_correlation argsort clean =
     bindE (corr_column (select_dtypes is_number clean) ''Price'') (\<lambda>ser.
       index_at (sort_values_desc argsort ser) 1)"

definition conclusion_page :: "(real list \<Rightarrow> nat list) \<Rightarrow> dataframe \<Rightarrow> ui list \<times> error option" where
  "conclusion_page argsort clean = run
     [Inr [Write ''Total Records'' (Count (len clean))],
      bindE (highest_price_car clean) (\<lambda>v. Inr [Write ''Highest Price Car'' (Value v)]),
      bindE (most_common_fuel clean) (\<lambda>v. Inr [Write ''Most Common Fuel'' (Value v)]),
      bindE (strongest_correlation argsort clean) (\<lambda>n.
        Inr [Write ''Strongest Correlation with Price'' (Name n)])]"

subsection \<open>View Dispatcher, lines 21-26, 78, 194\<close>

datatype page = Introduction | Analysis | Conclusions

definition app ::
    "(real list \<Rightarrow> nat list) \<Rightarrow> dataframe \<Rightarrow> page \<Rightarrow> controls \<Rightarrow> ui list \<times> error option" where
  "app argsort clean page c =
     (case page of
        Introduction \<Rightarrow> introduction_page clean
      | Analysis \<Rightarrow> analysis_page clean c
      | Conclusions \<Rightarrow> conclusion_page argsort clean)"

section \<open>Properties stated on rows\<close>

text \<open>
  The selection as a property of one row: its company is among the chosen values and its
  year lies in the closed interval \<open>year\<close>. A missing year lies in no interval.
\<close>

definition in_range :: "int \<times> int \<Rightarrow> scalar \<Rightarrow> bool" where
  "in_range year v =
     (case v of
        I y \<Rightarrow> fst year \<le> y \<and> y \<le> snd year
      | F r \<Rightarrow> of_int (fst year) \<le> r \<and> r \<le> of_int (snd year)
      | _ \<Rightarrow> False)"

definition in_selection :: "scalar list \<Rightarrow> int \<times> int \<Rightarrow> (string \<times> scalar) list \<Rightarrow> bool" where
  "in_selection company year row \<longleftrightarrow>
     (case map_of row ''Company_Name'' of None \<Rightarrow> False | Some v \<Rightarrow> v \<in> set company) \<and>
     (case map_of row ''Year'' of None \<Rightarrow> False | Some v \<Rightarrow> in_range year v)"


text \<open>
  The most frequent value as the specification words it: a value of greatest count, and
  among several of them the one that occurs first in table order.
\<close>

definition spec_most_frequent :: "'a list \<Rightarrow> 'a option" where
  "spec_most_frequent xs = find (\<lambda>x. count_list xs x = max_count xs) xs"

section \<open>A small cleaned table\<close>

definition cars :: dataframe where
  "cars =
     \<lparr>index = [0, 1, 2, 3],
      data =
        [(''Company_Name'', ObjS [Some ''Audi'', Some ''BMW'', Some ''Audi'', Some ''Maruti'']),
         (''Year'', IntS [2012, 2015, 2010, 2015]),
         (''Price'', FloatS [Some 9, Some 12, Some 12, Some 3]),
         (''Kilometers_Driven'', IntS [40000, 25000, 60000, 30000]),
         (''Power_value'', FloatS [Some 140, Some 190, Some 150, Some 67]),
         (''Fuel_Type'', ObjS [Some ''Petrol'', Some ''Diesel'', Some ''Diesel'', Some ''Petrol'']),
         (''Transmission'', ObjS [Some ''Manual'', Some ''Automatic'', Some ''Manual'', Some ''Manual'']),
         (''Insured'', BoolS [True, False, True, True])]\<rparr>"

text \<open>The same table without one of its columns.\<close>

definition without :: "string \<Rightarrow> dataframe \<Rightarrow> dataframe" where
  "without name df = df\<lparr>data := filter (\<lambda>(n, s). n \<noteq> name) (data df)\<rparr>"

text \<open>The subset of \<open>cars\<close> with no row, and the choices of a user who selects no
  company.\<close>

definition no_cars :: dataframe where
  "no_cars =
     \<lparr>index = [],
      data =
        [(''Company_Name'', ObjS []),
         (''Year'', IntS []),
         (''Price'', FloatS []),
         (''Kilometers_Driven'', IntS []),
         (''Power_value'', FloatS []),
         (''Fuel_Type'', ObjS []),
         (''Transmission'', ObjS []),
         (''Insured'', BoolS [])]\<rparr>"

definition nobody :: controls where
  "nobody =
     \<lparr>sel_company = [], sel_year = (2010, 2015), sel_col = ''Price'', sel_view = Histogram,
      sel_x = ''Price'', sel_y = ''Year'', sel_method = Grouped_Bar\<rparr>"

text \<open>
  Two further tables: \<open>cars\<close> with the year of the second car and the price of the first
  missing, and a table of two cars with the same price.
\<close>

definition cars_gap :: dataframe where
  "cars_gap =
     \<lparr>index = [0, 1, 2, 3],
      data =
        [(''Company_Name'', ObjS [Some ''Audi'', Some ''BMW'', Some ''Audi'', Some ''Maruti'']),
         (''Year'', FloatS [Some 2012, None, Some 2010, Some 2015]),
         (''Price'', FloatS [None, Some 9, Some 12, Some 12]),
         (''Kilometers_Driven'', IntS [40000, 25000, 60000, 30000]),
         (''Power_value'', FloatS [Some 140, Some 190, Some 150, Some 67]),
         (''Fuel_Type'', ObjS [Some ''Petrol'', Some ''Diesel'', Some ''Diesel'', Some ''Petrol'']),
         (''Transmission'', ObjS [Some ''Manual'', Some ''Automatic'', Some ''Manual'', Some ''Manual'']),
         (''Insured'', BoolS [True, False, True, True])]\<rparr>"

definition flat_price :: dataframe where
  "flat_price =
     \<lparr>index = [0, 1],
      data =
        [(''Company_Name'', ObjS [Some ''Audi'', Some ''BMW'']),
         (''Year'', IntS [2012, 2015]),
         (''Price'', FloatS [Some 9, Some 9]),
         (''Kilometers_Driven'', IntS [40000, 25000]),
         (''Power_value'', FloatS [Some 140, Some 190]),
         (''Fuel_Type'', ObjS [Some ''Petrol'', Some ''Diesel''])]\<rparr>"

section \<open>Column Classifier: properties\<close>

lemma num_cols_eq: "num_cols df = map fst (filter (\<lambda>(n, s). is_number (dtype_of s)) (data df))"
  by (simp add: num_cols_def select_dtypes_def columns_def)

lemma cat_cols_eq: "cat_cols df = map fst (filter (\<lambda>(n, s). dtype_of s = Object) (data df))"
  by (simp add: cat_cols_def select_dtypes_def columns_def)

lemma distinct_fst_unique:
  "distinct (map fst ps) \<Longrightarrow> (n, a) \<in> set ps \<Longrightarrow> (n, b) \<in> set ps \<Longrightarrow> a = b"
  by (meson eq_key_imp_eq_value)

lemma in_num_cols:
  "distinct (columns df) \<Longrightarrow> (n, s) \<in> set (data df) \<Longrightarrow>
   n \<in> set (num_cols df) \<longleftrightarrow> is_number (dtype_of s)"
  unfolding num_cols_eq columns_def
  by (auto dest: distinct_fst_unique intro!: image_eqI [where x = "(n, s)"])

lemma in_cat_cols:
  "distinct (columns df) \<Longrightarrow> (n, s) \<in> set (data df) \<Longrightarrow>
   n \<in> set (cat_cols df) \<longleftrightarrow> dtype_of s = Object"
  unfolding cat_cols_eq columns_def
  by (auto dest: distinct_fst_unique intro!: image_eqI [where x = "(n, s)"])

lemma num_cols_data:
  "n \<in> set (num_cols df) \<Longrightarrow> \<exists>s. (n, s) \<in> set (data df) \<and> is_number (dtype_of s)"
  unfolding num_cols_eq by auto

lemma num_cat_disjoint:
  assumes "distinct (columns df)"
  shows "set (num_cols df) \<inter> set (cat_cols df) = {}"
proof (rule ccontr)
  assume "set (num_cols df) \<inter> set (cat_cols df) \<noteq> {}"
  then obtain n where n: "n \<in> set (num_cols df)" "n \<in> set (cat_cols df)" by auto
  from n(1) obtain s where s: "(n, s) \<in> set (data df)" "is_number (dtype_of s)"
    using num_cols_data by blast
  from n(2) s(1) assms have "dtype_of s = Object" by (simp add: in_cat_cols)
  with s(2) show False by simp
qed

lemma cars_distinct: "distinct (columns cars)"
  by (simp add: cars_def columns_def)

lemma cars_num_cols: "num_cols cars = [''Year'', ''Price'', ''Kilometers_Driven'', ''Power_value'']"
  by (simp add: num_cols_eq cars_def)

lemma cars_cat_cols: "cat_cols cars = [''Company_Name'', ''Fuel_Type'', ''Transmission'']"
  by (simp add: cat_cols_eq cars_def)

text \<open>
  C2, as the specification states it: the numeric and the categorical list together hold
  every column of the table. The table \<open>cars\<close> has a boolean column, \<open>Insured\<close>, which
  is in neither list.
\<close>

theorem classifier_union_counterexample:
  "set (num_cols cars) \<union> set (cat_cols cars) \<noteq> set (columns cars)"
proof
  assume e: "set (num_cols cars) \<union> set (cat_cols cars) = set (columns cars)"
  have "''Insured'' \<in> set (columns cars)" by (simp add: cars_def columns_def)
  with e have "''Insured'' \<in> set (num_cols cars) \<union> set (cat_cols cars)" by simp
  then show False by (simp add: cars_num_cols cars_cat_cols)
qed

text \<open>
  C2, amended: for every table (its column names distinct, as in every loaded table, and
  with any number of rows), the numeric and the categorical list are both sublists of the
  column list in column order, they share no column, and together they hold exactly the
  columns whose dtype is a number dtype or the object dtype. Boolean and timestamp columns
  are in neither list.
\<close>

theorem classifier_partition:
  assumes "distinct (columns df)"
  shows "subseq (num_cols df) (columns df) \<and> subseq (cat_cols df) (columns df) \<and>
         set (num_cols df) \<inter> set (cat_cols df) = {} \<and>
         set (num_cols df) \<union> set (cat_cols df) =
           {n. \<exists>s. (n, s) \<in> set (data df) \<and> (is_number (dtype_of s) \<or> dtype_of s = Object)}"
proof -
  have a: "subseq (num_cols df) (columns df)"
    unfolding num_cols_eq columns_def by (intro subseq_map subseq_filter_left)
  have b: "subseq (cat_cols df) (columns df)"
    unfolding cat_cols_eq columns_def by (intro subseq_map subseq_filter_left)
  have d: "set (num_cols df) \<union> set (cat_cols df) =
           {n. \<exists>s. (n, s) \<in> set (data df) \<and> (is_number (dtype_of s) \<or> dtype_of s = Object)}"
    unfolding num_cols_eq cat_cols_eq by force
  from a b d num_cat_disjoint [OF assms] show ?thesis by blast
qed

theorem classifier_partition_witness:
  "distinct (columns cars) \<and>
   subseq (num_cols cars) (columns cars) \<and> subseq (cat_cols cars) (columns cars) \<and>
   set (num_cols cars) \<inter> set (cat_cols cars) = {} \<and>
   set (num_cols cars) \<union> set (cat_cols cars) =
     {n. \<exists>s. (n, s) \<in> set (data cars) \<and> (is_number (dtype_of s) \<or> dtype_of s = Object)}"
  using cars_distinct classifier_partition [OF cars_distinct] by (intro conjI) simp_all

section \<open>Chart Selector: properties\<close>



text \<open>
  C9: the grouped bar chart is produced if and only if the subset has both a
  \<open>Fuel_Type\<close> and a \<open>Price\<close> column; it is then the bar plot of \<open>Price\<close> per
  \<open>Fuel_Type\<close> (grouped by \<open>Transmission\<close> when that column exists). When either column
  is absent the branch puts the warning on the screen and no chart, and raises nothing.
\<close>

theorem grouped_bar_iff:
  "((\<exists>c. Chart c \<in> set (multivariate df Grouped_Bar)) \<longleftrightarrow>
      ''Fuel_Type'' \<in> set (columns df) \<and> ''Price'' \<in> set (columns df)) \<and>
   (''Fuel_Type'' \<in> set (columns df) \<and> ''Price'' \<in> set (columns df) \<longrightarrow>
      multivariate df Grouped_Bar =
        [Chart (Barplot ''Fuel_Type'' ''Price''
           (if ''Transmission'' \<in> set (columns df) then Some ''Transmission'' else None))]) \<and>
   (\<not> (''Fuel_Type'' \<in> set (columns df) \<and> ''Price'' \<in> set (columns df)) \<longrightarrow>
      multivariate df Grouped_Bar = [Warning ''Required columns missing''])"
  by (simp add: multivariate_def)

theorem grouped_bar_iff_witness:
  "''Fuel_Type'' \<in> set (columns cars) \<and> ''Price'' \<in> set (columns cars) \<and>
   multivariate cars Grouped_Bar
     = [Chart (Barplot ''Fuel_Type'' ''Price'' (Some ''Transmission''))] \<and>
   ''Fuel_Type'' \<notin> set (columns (without ''Fuel_Type'' cars)) \<and>
   multivariate (without ''Fuel_Type'' cars) Grouped_Bar = [Warning ''Required columns missing'']"
proof -
  have a: "''Fuel_Type'' \<in> set (columns cars)" "''Price'' \<in> set (columns cars)"
    "''Transmission'' \<in> set (columns cars)"
    by (simp_all add: cars_def columns_def)
  have b: "''Fuel_Type'' \<notin> set (columns (without ''Fuel_Type'' cars))"
    by (simp add: cars_def columns_def without_def)
  from a b grouped_bar_iff [of cars] grouped_bar_iff [of "without ''Fuel_Type'' cars"]
  show ?thesis by simp
qed

text \<open>
  C10: a column whose dtype is neither a number dtype nor the object dtype (a boolean or
  a timestamp column) is in neither classifier list; chosen in the univariate analysis it
  gets the numeric charts (histogram, KDE or boxplot, by the radio button); chosen in the
  bivariate analysis, as \<open>x\<close> or as \<open>y\<close>, it gets the grouped count plot, whatever the
  other column is.
\<close>

theorem unclassified_column_routing:
  assumes "distinct (columns df)" and "(c, s) \<in> set (data df)"
    and "\<not> is_number (dtype_of s)" and "dtype_of s \<noteq> Object"
  shows "c \<notin> set (num_cols df) \<and> c \<notin> set (cat_cols df) \<and>
         univariate (cat_cols df) c view =
           (case view of
              Histogram \<Rightarrow> Histplot_kde c
            | KDE \<Rightarrow> Kdeplot_fill c
            | Boxplot_view \<Rightarrow> Boxplot_x c) \<and>
         bivariate (num_cols df) (cat_cols df) c other = [Chart (Countplot_hue c other)] \<and>
         bivariate (num_cols df) (cat_cols df) other c = [Chart (Countplot_hue other c)]"
proof -
  have n: "c \<notin> set (num_cols df)" using assms by (simp add: in_num_cols)
  have k: "c \<notin> set (cat_cols df)" using assms by (simp add: in_cat_cols)
  show ?thesis using n k by (simp add: univariate_def bivariate_def)
qed

theorem unclassified_column_routing_witness:
  "distinct (columns cars) \<and>
   (''Insured'', BoolS [True, False, True, True]) \<in> set (data cars) \<and>
   \<not> is_number (dtype_of (BoolS [True, False, True, True])) \<and>
   dtype_of (BoolS [True, False, True, True]) \<noteq> Object \<and>
   ''Insured'' \<notin> set (num_cols cars) \<and> ''Insured'' \<notin> set (cat_cols cars) \<and>
   univariate (cat_cols cars) ''Insured'' KDE = Kdeplot_fill ''Insured'' \<and>
   bivariate (num_cols cars) (cat_cols cars) ''Insured'' ''Price''
     = [Chart (Countplot_hue ''Insured'' ''Price'')] \<and>
   bivariate (num_cols cars) (cat_cols cars) ''Fuel_Type'' ''Insured''
     = [Chart (Countplot_hue ''Fuel_Type'' ''Insured'')]"
proof -
  have m: "(''Insured'', BoolS [True, False, True, True]) \<in> set (data cars)"
    by (simp add: cars_def)
  have t: "\<not> is_number (dtype_of (BoolS [True, False, True, True]))"
    "dtype_of (BoolS [True, False, True, True]) \<noteq> Object"
    by simp_all
  from cars_distinct m t
    unclassified_column_routing [OF cars_distinct m t, of KDE "''Price''"]
    unclassified_column_routing [OF cars_distinct m t, of KDE "''Fuel_Type''"]
  show ?thesis by simp
qed

section \<open>Filter Engine: properties\<close>

lemma compress_map_filter: "compress (map P xs) xs = filter P xs"
  by (induction xs) auto

lemma compress_map: "compress keep (map f xs) = map f (compress keep xs)"
  by (induction keep xs rule: compress.induct) auto

lemma compress_zip:
  "compress keep (zip xs ys) = zip (compress keep xs) (compress keep ys)"
proof (induction keep arbitrary: xs ys)
  case Nil
  then show ?case by simp
next
  case (Cons m ms)
  then show ?case by (cases xs; cases ys) auto
qed

lemma compress_replicate:
  "compress keep (replicate (length keep) x) = replicate (length (filter (\<lambda>b. b) keep)) x"
  by (induction keep) auto

lemma length_compress:
  "length xs = length keep \<Longrightarrow> length (compress keep xs) = length (filter (\<lambda>b. b) keep)"
  by (induction keep xs rule: compress.induct) auto

lemma compress_all: "length xs \<le> n \<Longrightarrow> compress (replicate n True) xs = xs"
  by (induction xs arbitrary: n) (auto simp: Suc_le_eq dest!: less_imp_Suc_add)

lemma compress_none: "list_all (\<lambda>b. \<not> b) keep \<Longrightarrow> compress keep xs = []"
  by (induction keep xs rule: compress.induct) auto

lemma cells_series_compress: "cells (series_compress keep s) = compress keep (cells s)"
  by (cases s) (simp_all add: compress_map)

lemma dtype_series_compress: "dtype_of (series_compress keep s) = dtype_of s"
  by (cases s) simp_all

lemma length_rows_of:
  "list_all (\<lambda>(n, s). len_series s = k) cs \<Longrightarrow> length (rows_of cs k) = k"
  by (induction cs) (auto simp: len_series_def)

lemma rows_of_compress:
  assumes "list_all (\<lambda>(n, s). len_series s = length keep) cs"
  shows "rows_of (map (\<lambda>(n, s). (n, series_compress keep s)) cs) (length (filter (\<lambda>b. b) keep))
         = compress keep (rows_of cs (length keep))"
  using assms
proof (induction cs)
  case Nil
  then show ?case by (simp add: compress_replicate)
next
  case (Cons a cs)
  obtain n s where a: "a = (n, s)" by (cases a)
  from Cons.prems a have l: "length (cells s) = length keep" by (simp add: len_series_def)
  from Cons.prems have r: "list_all (\<lambda>(n, s). len_series s = length keep) cs" by simp
  show ?case
    by (simp add: a Cons.IH [OF r] cells_series_compress compress_map compress_zip)
qed

lemma rows_of_lookup:
  assumes "list_all (\<lambda>(n, s). len_series s = k) cs" and "map_of cs name = Some s"
  shows "map (\<lambda>r. map_of r name) (rows_of cs k) = map Some (cells s)"
  using assms
proof (induction cs)
  case Nil
  then show ?case by simp
next
  case (Cons a cs)
  obtain m t where a: "a = (m, t)" by (cases a)
  from Cons.prems a have lt: "length (cells t) = k" by (simp add: len_series_def)
  from Cons.prems have r: "list_all (\<lambda>(n, s). len_series s = k) cs" by simp
  have lr: "length (rows_of cs k) = k" by (rule length_rows_of [OF r])
  show ?case
  proof (cases "m = name")
    case True
    with Cons.prems a have "t = s" by simp
    have "map (\<lambda>r. map_of r name) (rows_of (a # cs) k)
          = map (\<lambda>(v, r). Some v) (zip (cells t) (rows_of cs k))"
      by (auto simp: a True)
    also have "\<dots> = map Some (map fst (zip (cells t) (rows_of cs k)))"
      by (simp add: case_prod_unfold comp_def)
    also have "\<dots> = map Some (cells t)" using lt lr by simp
    finally show ?thesis using \<open>t = s\<close> by simp
  next
    case False
    with Cons.prems a have ms: "map_of cs name = Some s" by simp
    have "map (\<lambda>r. map_of r name) (rows_of (a # cs) k)
          = map (\<lambda>(v, r). map_of r name) (zip (cells t) (rows_of cs k))"
      using False by (auto simp: a)
    also have "\<dots> = map (\<lambda>r. map_of r name) (map snd (zip (cells t) (rows_of cs k)))"
      by (simp add: case_prod_unfold comp_def)
    also have "\<dots> = map (\<lambda>r. map_of r name) (rows_of cs k)" using lt lr by simp
    finally show ?thesis using Cons.IH [OF r ms] by simp
  qed
qed

lemma getitem_Inr: "getitem df name = Inr s \<longleftrightarrow> map_of (data df) name = Some s"
  by (simp add: getitem_def split: option.splits)

lemma between_numeric:
  "is_number (dtype_of yr) \<Longrightarrow> between yr (fst year) (snd year) = Inr (map (in_range year) (cells yr))"
  by (cases yr) (auto simp: in_range_def split: option.splits)

lemma in_range_empty: "snd year < fst year \<Longrightarrow> \<not> in_range year v"
  by (cases v) (auto simp: in_range_def)

lemma set_unique_list: "set (unique_list xs) = set xs"
  by (induction xs) auto

lemma dropna_map_Some: "dropna (map (\<lambda>x. Some (f x)) xs) = map f xs"
  by (induction xs) auto

lemma fold_min_of_int: "fold min (map of_int ys) (of_int y :: real) = of_int (fold min ys y)"
  by (induction ys arbitrary: y) (simp_all add: of_int_min [symmetric] del: of_int_min)

lemma fold_max_of_int: "fold max (map of_int ys) (of_int y :: real) = of_int (fold max ys y)"
  by (induction ys arbitrary: y) (simp_all add: of_int_max [symmetric] del: of_int_max)

lemma fold_min_le: "z \<in> set (y # ys) \<Longrightarrow> fold min ys y \<le> (z :: int)"
  unfolding Min.set_eq_fold [symmetric] by (rule Min_le) auto

lemma fold_max_ge: "z \<in> set (y # ys) \<Longrightarrow> (z :: int) \<le> fold max ys y"
  unfolding Max.set_eq_fold [symmetric] by (rule Max_ge) auto

lemma py_int_of_int: "py_int (Some (of_int k)) = Inr k"
  by (simp add: py_int_def)

lemma year_bounds_whole:
  assumes "getitem clean ''Year'' = Inr yr"
    and "to_reals yr = Some (map (\<lambda>k. Some (of_int k)) ks)"
  shows "year_bounds clean =
           (case ks of [] \<Rightarrow> Inl ValueError | k # ks' \<Rightarrow> Inr (fold min ks' k, fold max ks' k))"
proof (cases ks)
  case Nil
  with assms show ?thesis
    by (simp add: year_bounds_def bindE_def series_min_def series_max_def py_int_def)
next
  case (Cons k ks')
  with assms show ?thesis
    by (simp add: year_bounds_def bindE_def series_min_def series_max_def
        fold_min_of_int fold_max_of_int py_int_of_int dropna_map_Some [of of_int, simplified])
qed

lemma in_range_whole:
  assumes "is_number (dtype_of yr)"
    and "to_reals yr = Some (map (\<lambda>k. Some (of_int k)) ks)"
  shows "map (in_range year) (cells yr) = map (\<lambda>k. fst year \<le> k \<and> k \<le> snd year) ks"
proof (cases yr)
  case (IntS ys)
  have "inj (\<lambda>x :: int. Some (of_int x :: real))" by (simp add: inj_def)
  with assms(2) IntS have "ys = ks" by (simp add: inj_map_eq_map)
  with IntS show ?thesis by (simp add: in_range_def)
next
  case (FloatS xs)
  with assms(2) show ?thesis by (simp add: in_range_def comp_def)
qed (use assms(1) in simp_all)

lemma loaded_lengths:
  "loaded df \<Longrightarrow> list_all (\<lambda>(n, s). len_series s = length (index df)) (data df)"
  by (simp add: loaded_def rectangular_def len_def)

lemma column_length:
  "loaded df \<Longrightarrow> map_of (data df) name = Some s \<Longrightarrow> length (cells s) = length (index df)"
  by (drule loaded_lengths) (auto simp: list_all_iff len_series_def dest!: map_of_SomeD)

lemma selection_mask:
  assumes L: "loaded clean"
    and C: "map_of (data clean) ''Company_Name'' = Some c"
    and Y: "map_of (data clean) ''Year'' = Some yr"
  shows "map2 (\<lambda>p q. p \<and> q) (isin c company) (map (in_range year) (cells yr))
         = map (in_selection company year) (to_rows clean)"
proof -
  let ?n = "length (index clean)"
  let ?rows = "rows_of (data clean) ?n"
  have ls: "list_all (\<lambda>(n, s). len_series s = ?n) (data clean)" by (rule loaded_lengths [OF L])
  have lc: "length (cells c) = ?n" by (rule column_length [OF L C])
  have ly: "length (cells yr) = ?n" by (rule column_length [OF L Y])
  have lr: "length ?rows = ?n" by (rule length_rows_of [OF ls])
  have rc: "map (\<lambda>r. map_of r ''Company_Name'') ?rows = map Some (cells c)"
    by (rule rows_of_lookup [OF ls C])
  have ry: "map (\<lambda>r. map_of r ''Year'') ?rows = map Some (cells yr)"
    by (rule rows_of_lookup [OF ls Y])
  show ?thesis
  proof (rule nth_equalityI)
    show "length (map2 (\<lambda>p q. p \<and> q) (isin c company) (map (in_range year) (cells yr)))
          = length (map (in_selection company year) (to_rows clean))"
      by (simp add: isin_def lc ly lr to_rows_def len_def)
  next
    fix i
    assume "i < length (map2 (\<lambda>p q. p \<and> q) (isin c company) (map (in_range year) (cells yr)))"
    then have i: "i < ?n" by (simp add: isin_def lc ly)
    from rc i lr lc have c: "map_of (?rows ! i) ''Company_Name'' = Some (cells c ! i)"
      by (metis (no_types, lifting) length_map nth_map)
    from ry i lr ly have y: "map_of (?rows ! i) ''Year'' = Some (cells yr ! i)"
      by (metis (no_types, lifting) length_map nth_map)
    show "map2 (\<lambda>p q. p \<and> q) (isin c company) (map (in_range year) (cells yr)) ! i
          = map (in_selection company year) (to_rows clean) ! i"
      using i lc ly lr c y by (simp add: isin_def to_rows_def len_def in_selection_def)
  qed
qed

lemma to_rows_boolean_index:
  assumes L: "loaded clean" and K: "length keep = length (index clean)"
  shows "to_rows (boolean_index clean keep) = compress keep (to_rows clean)"
proof -
  have ls: "list_all (\<lambda>(n, s). len_series s = length keep) (data clean)"
    using loaded_lengths [OF L] K by simp
  have "length (compress keep (index clean)) = length (filter (\<lambda>b. b) keep)"
    by (rule length_compress) (simp add: K)
  then show ?thesis
    using rows_of_compress [OF ls] by (simp add: to_rows_def boolean_index_def len_def K)
qed

lemma boolean_index_all:
  assumes L: "loaded clean"
  shows "boolean_index clean (replicate (length (index clean)) True) = clean"
proof -
  let ?n = "length (index clean)"
  have "series_compress (replicate ?n True) s = s" if "len_series s = ?n" for s
    using that by (cases s) (simp_all add: len_series_def compress_all)
  with loaded_lengths [OF L]
  have "map (\<lambda>(n, s). (n, series_compress (replicate ?n True) s)) (data clean) = data clean"
    by (intro map_idI) (auto simp: list_all_iff)
  then show ?thesis by (simp add: boolean_index_def compress_all)
qed

lemma filter_engine_mask:
  assumes L: "loaded clean"
    and C: "getitem clean ''Company_Name'' = Inr c"
    and Y: "getitem clean ''Year'' = Inr yr"
    and N: "is_number (dtype_of yr)"
  shows "filter_engine clean company year
         = Inr (boolean_index clean (map (in_selection company year) (to_rows clean)))"
proof -
  from C have C': "map_of (data clean) ''Company_Name'' = Some c" by (simp add: getitem_Inr)
  from Y have Y': "map_of (data clean) ''Year'' = Some yr" by (simp add: getitem_Inr)
  show ?thesis
    by (simp add: filter_engine_def bindE_def C Y between_numeric [OF N]
        selection_mask [OF L C' Y'])
qed

lemma length_to_rows: "loaded df \<Longrightarrow> length (to_rows df) = length (index df)"
  by (simp add: to_rows_def len_def length_rows_of loaded_lengths)

lemma cars_loaded: "loaded cars"
  by (simp add: loaded_def rectangular_def len_def len_series_def cars_def columns_def upt_rec)

lemma cars_company:
  "getitem cars ''Company_Name'' = Inr (ObjS [Some ''Audi'', Some ''BMW'', Some ''Audi'', Some ''Maruti''])"
  by (simp add: getitem_def cars_def)

lemma cars_year: "getitem cars ''Year'' = Inr (IntS [2012, 2015, 2010, 2015])"
  by (simp add: getitem_def cars_def)

lemma cars_options: "company_options cars = Inr [S ''Audi'', S ''BMW'', S ''Maruti'']"
  by (simp add: company_options_def bindE_def cars_company unique_def)

lemma cars_bounds: "year_bounds cars = Inr (2010, 2015)"
  by (simp add: year_bounds_def bindE_def cars_year series_min_def series_max_def py_int_def)

lemma cars_slider: "year_slider cars = Inr (2010, 2015)"
  by (simp add: year_slider_def bindE_def cars_bounds)

text \<open>
  C1, as the specification states it: for every table, the full set of company values
  together with the interval from the least to the greatest year gives back the whole
  table. In \<open>cars_gap\<close> the year of the second car is missing: the sidebar offers all
  three companies and the years 2010 to 2015, and with this choice the filter keeps three
  of the four rows, since a missing year lies in no interval.
\<close>

theorem filter_identity_counterexample:
  "company_options cars_gap = Inr [S ''Audi'', S ''BMW'', S ''Maruti''] \<and>
   year_slider cars_gap = Inr (2010, 2015) \<and>
   filter_engine cars_gap [S ''Audi'', S ''BMW'', S ''Maruti''] (2010, 2015)
     = Inr (boolean_index cars_gap [True, False, True, True]) \<and>
   len (boolean_index cars_gap [True, False, True, True]) = 3 \<and>
   len cars_gap = 4"
proof -
  have y: "getitem cars_gap ''Year'' = Inr (FloatS [Some 2012, None, Some 2010, Some 2015])"
    by (simp add: getitem_def cars_gap_def)
  have c: "getitem cars_gap ''Company_Name''
           = Inr (ObjS [Some ''Audi'', Some ''BMW'', Some ''Audi'', Some ''Maruti''])"
    by (simp add: getitem_def cars_gap_def)
  have o: "company_options cars_gap = Inr [S ''Audi'', S ''BMW'', S ''Maruti'']"
    by (simp add: company_options_def bindE_def c unique_def)
  have b: "year_bounds cars_gap = Inr (2010, 2015)"
    by (simp add: year_bounds_def bindE_def y series_min_def series_max_def py_int_def)
  have s: "year_slider cars_gap = Inr (2010, 2015)"
    by (simp add: year_slider_def bindE_def b)
  have f: "filter_engine cars_gap [S ''Audi'', S ''BMW'', S ''Maruti''] (2010, 2015)
           = Inr (boolean_index cars_gap [True, False, True, True])"
    by (simp add: filter_engine_def bindE_def c y isin_def)
  have l: "len (boolean_index cars_gap [True, False, True, True]) = 3"
    by (simp add: len_def boolean_index_def cars_gap_def)
  have g: "len cars_gap = 4" by (simp add: len_def cars_gap_def)
  from o s f l g show ?thesis by (intro conjI)
qed

text \<open>
  C1, amended: on a loaded table with a \<open>Company_Name\<close> column and a numeric \<open>Year\<close>
  column, the filter raises nothing and returns a frame with the columns of the table
  whose rows are exactly the rows of the table that are in the selection (company among
  the chosen values and year in the closed interval), in table order. With no company
  chosen the result has no row; with a lower bound above the upper bound it has no row.
  When every year is present and a whole number (the years \<open>ks\<close>), the full set of
  company values together with the interval from the least to the greatest year gives
  back the table itself. On such a table with at least one row the sidebar computes this
  set and these bounds, and its slider is built when the least year is below the
  greatest.
\<close>

theorem filter_engine_exact:
  assumes L: "loaded clean"
    and C: "getitem clean ''Company_Name'' = Inr c"
    and Y: "getitem clean ''Year'' = Inr yr"
    and N: "is_number (dtype_of yr)"
  shows "\<exists>df. filter_engine clean company year = Inr df \<and>
           columns df = columns clean \<and>
           to_rows df = filter (in_selection company year) (to_rows clean) \<and>
           len df = length (to_rows df) \<and>
           (company = [] \<longrightarrow> len df = 0) \<and>
           (snd year < fst year \<longrightarrow> len df = 0) \<and>
           (to_reals yr = Some (map (\<lambda>k. Some (of_int k)) ks) \<and>
              company_options clean = Inr company \<and>
              year_bounds clean = Inr year \<longrightarrow> df = clean) \<and>
           (to_reals yr = Some (map (\<lambda>k. Some (of_int k)) ks) \<and> 0 < len clean \<longrightarrow>
              (\<exists>all full. company_options clean = Inr all \<and> year_bounds clean = Inr full \<and>
                 year_slider clean
                   = (if fst full < snd full then Inr full else Inl StreamlitAPIException)))"
proof -
  let ?keep = "map (in_selection company year) (to_rows clean)"
  let ?df = "boolean_index clean ?keep"
  have lk: "length ?keep = length (index clean)" by (simp add: length_to_rows [OF L])
  from C have C': "map_of (data clean) ''Company_Name'' = Some c" by (simp add: getitem_Inr)
  from Y have Y': "map_of (data clean) ''Year'' = Some yr" by (simp add: getitem_Inr)
  have lc: "length (cells c) = length (index clean)" by (rule column_length [OF L C'])
  have ly: "length (cells yr) = length (index clean)" by (rule column_length [OF L Y'])
  have run: "filter_engine clean company year = Inr ?df"
    by (rule filter_engine_mask [OF L C Y N])
  have cols: "columns ?df = columns clean"
    by (simp add: columns_def boolean_index_def comp_def case_prod_unfold)
  have rows: "to_rows ?df = filter (in_selection company year) (to_rows clean)"
    by (simp add: to_rows_boolean_index [OF L lk] compress_map_filter)
  have "len ?df = length (compress ?keep (index clean))"
    by (simp add: len_def boolean_index_def)
  also have "\<dots> = length (compress ?keep (to_rows clean))"
    using lk by (simp add: length_compress length_to_rows [OF L])
  finally have count: "len ?df = length (to_rows ?df)"
    by (simp add: rows compress_map_filter)
  have none: "len ?df = 0" if "company = []"
  proof -
    have "\<not> in_selection company year r" for r
      using that by (simp add: in_selection_def split: option.splits)
    then show ?thesis by (simp add: count rows)
  qed
  have empty: "len ?df = 0" if "snd year < fst year"
  proof -
    have "\<not> in_selection company year r" for r
      using in_range_empty [OF that] by (simp add: in_selection_def split: option.splits)
    then show ?thesis by (simp add: count rows)
  qed
  have ident: "?df = clean"
    if w: "to_reals yr = Some (map (\<lambda>k. Some (of_int k)) ks)"
      and o: "company_options clean = Inr company"
      and s: "year_bounds clean = Inr year"
  proof -
    from o C have company: "company = unique c" by (simp add: company_options_def bindE_def)
    have rng: "map (in_range year) (cells yr) = map (\<lambda>k. fst year \<le> k \<and> k \<le> snd year) ks"
      by (rule in_range_whole [OF N w])
    then have lks: "length ks = length (index clean)" using ly by (metis length_map)
    have yrs: "fst year \<le> z \<and> z \<le> snd year" if "z \<in> set ks" for z
    proof (cases ks)
      case Nil
      with that show ?thesis by simp
    next
      case (Cons k ks')
      with s year_bounds_whole [OF Y w] have "year = (fold min ks' k, fold max ks' k)" by simp
      with that Cons fold_min_le [of z k ks'] fold_max_ge [of z k ks'] show ?thesis by simp
    qed
    have "map2 (\<lambda>p q. p \<and> q) (isin c company) (map (in_range year) (cells yr))
          = replicate (length (index clean)) True"
    proof (rule nth_equalityI)
      show "length (map2 (\<lambda>p q. p \<and> q) (isin c company) (map (in_range year) (cells yr)))
            = length (replicate (length (index clean)) True)"
        by (simp add: isin_def lc ly)
    next
      fix k
      assume "k < length (map2 (\<lambda>p q. p \<and> q) (isin c company) (map (in_range year) (cells yr)))"
      then have k: "k < length (index clean)" by (simp add: isin_def lc ly)
      have a: "cells c ! k \<in> set company"
        using k lc by (simp add: company unique_def set_unique_list)
      have "ks ! k \<in> set ks" using k lks by simp
      then have b: "map (in_range year) (cells yr) ! k"
        unfolding rng using yrs k lks by simp
      show "map2 (\<lambda>p q. p \<and> q) (isin c company) (map (in_range year) (cells yr)) ! k
            = replicate (length (index clean)) True ! k"
        using k lc ly a b by (simp add: isin_def)
    qed
    then have "?keep = replicate (length (index clean)) True"
      by (simp add: selection_mask [OF L C' Y'])
    then show ?thesis by (simp add: boolean_index_all [OF L])
  qed
  have slider: "\<exists>all full. company_options clean = Inr all \<and> year_bounds clean = Inr full \<and>
       year_slider clean = (if fst full < snd full then Inr full else Inl StreamlitAPIException)"
    if w: "to_reals yr = Some (map (\<lambda>k. Some (of_int k)) ks)" and p: "0 < len clean"
  proof -
    have "map (in_range year) (cells yr) = map (\<lambda>k. fst year \<le> k \<and> k \<le> snd year) ks"
      by (rule in_range_whole [OF N w])
    then have "length ks = length (index clean)" using ly by (metis length_map)
    with p obtain k ks' where "ks = k # ks'" by (cases ks) (simp_all add: len_def)
    with year_bounds_whole [OF Y w]
    have b: "year_bounds clean = Inr (fold min ks' k, fold max ks' k)" by simp
    then have "year_slider clean
        = (if fst (fold min ks' k, fold max ks' k) < snd (fold min ks' k, fold max ks' k)
           then Inr (fold min ks' k, fold max ks' k) else Inl StreamlitAPIException)"
      by (simp add: year_slider_def bindE_def)
    moreover from C have "company_options clean = Inr (unique c)"
      by (simp add: company_options_def bindE_def)
    ultimately show ?thesis using b by blast
  qed
  show ?thesis
  proof (intro exI [of _ ?df] conjI impI)
    show "filter_engine clean company year = Inr ?df" by (rule run)
    show "columns ?df = columns clean" by (rule cols)
    show "to_rows ?df = filter (in_selection company year) (to_rows clean)" by (rule rows)
    show "len ?df = length (to_rows ?df)" by (rule count)
    show "len ?df = 0" if "company = []" using that by (rule none)
    show "len ?df = 0" if "snd year < fst year" using that by (rule empty)
    show "?df = clean"
      if "to_reals yr = Some (map (\<lambda>k. Some (of_int k)) ks) \<and>
          company_options clean = Inr company \<and> year_bounds clean = Inr year"
      using that ident by blast
    show "\<exists>all full. company_options clean = Inr all \<and> year_bounds clean = Inr full \<and>
       year_slider clean = (if fst full < snd full then Inr full else Inl StreamlitAPIException)"
      if "to_reals yr = Some (map (\<lambda>k. Some (of_int k)) ks) \<and> 0 < len clean"
      using that slider by blast
  qed
qed

theorem filter_engine_exact_witness:
  "loaded cars \<and>
   getitem cars ''Company_Name''
     = Inr (ObjS [Some ''Audi'', Some ''BMW'', Some ''Audi'', Some ''Maruti'']) \<and>
   getitem cars ''Year'' = Inr (IntS [2012, 2015, 2010, 2015]) \<and>
   is_number (dtype_of (IntS [2012, 2015, 2010, 2015])) \<and>
   to_reals (IntS [2012, 2015, 2010, 2015])
     = Some (map (\<lambda>k. Some (of_int k)) [2012, 2015, 2010, 2015]) \<and>
   (\<exists>df. filter_engine cars [S ''Audi''] (2010, 2012) = Inr df \<and>
      to_rows df = filter (in_selection [S ''Audi''] (2010, 2012)) (to_rows cars)) \<and>
   (\<exists>df. filter_engine cars [] (2010, 2015) = Inr df \<and> len df = 0) \<and>
   (\<exists>df. filter_engine cars [S ''Audi''] (2015, 2010) = Inr df \<and> len df = 0) \<and>
   company_options cars = Inr [S ''Audi'', S ''BMW'', S ''Maruti''] \<and>
   year_bounds cars = Inr (2010, 2015) \<and>
   year_slider cars = Inr (2010, 2015) \<and>
   filter_engine cars [S ''Audi'', S ''BMW'', S ''Maruti''] (2010, 2015) = Inr cars"
proof -
  have n: "is_number (dtype_of (IntS [2012, 2015, 2010, 2015]))" by simp
  have w: "to_reals (IntS [2012, 2015, 2010, 2015])
     = Some (map (\<lambda>k. Some (of_int k)) [2012, 2015, 2010, 2015])" by simp
  note T = filter_engine_exact [OF cars_loaded cars_company cars_year n]
  have a: "\<exists>df. filter_engine cars [S ''Audi''] (2010, 2012) = Inr df \<and>
      to_rows df = filter (in_selection [S ''Audi''] (2010, 2012)) (to_rows cars)"
    using T [of "[S ''Audi'']" "(2010, 2012)"] by blast
  have b: "\<exists>df. filter_engine cars [] (2010, 2015) = Inr df \<and> len df = 0"
    using T [of "[]" "(2010, 2015)"] by blast
  have c: "\<exists>df. filter_engine cars [S ''Audi''] (2015, 2010) = Inr df \<and> len df = 0"
    using T [of "[S ''Audi'']" "(2015, 2010)"] by auto
  have d: "filter_engine cars [S ''Audi'', S ''BMW'', S ''Maruti''] (2010, 2015) = Inr cars"
    using T [of "[S ''Audi'', S ''BMW'', S ''Maruti'']" "(2010, 2015)" "[2012, 2015, 2010, 2015]"]
      w cars_options cars_bounds by auto
  from cars_loaded cars_company cars_year n w a b c cars_options cars_bounds cars_slider d
  show ?thesis by (intro conjI)
qed

section \<open>Summary Reporter: properties\<close>

lemma max_count_Max: "max_count xs = Max (insert 0 (count_list xs ` set xs))"
  unfolding max_count_def Max.set_eq_fold [symmetric] by simp

lemma count_le_max_count: "count_list xs v \<le> max_count xs"
proof (cases "v \<in> set xs")
  case True
  then show ?thesis unfolding max_count_Max by (intro Max_ge) auto
next
  case False
  then show ?thesis by simp
qed

lemma max_count_attained:
  assumes "xs \<noteq> []"
  shows "\<exists>m \<in> set xs. count_list xs m = max_count xs"
proof -
  have "Max (insert 0 (count_list xs ` set xs)) \<in> insert 0 (count_list xs ` set xs)"
    by (intro Max_in) auto
  then have "max_count xs = 0 \<or> (\<exists>m \<in> set xs. count_list xs m = max_count xs)"
    unfolding max_count_Max by auto
  moreover
  from assms obtain x where x: "x \<in> set xs" by (cases xs) auto
  then have "0 < count_list xs x" using count_list_0_iff [of xs x] by (cases "count_list xs x") auto
  with count_le_max_count [of xs x] have "0 < max_count xs" by simp
  ultimately show ?thesis by auto
qed

lemma set_mode_list: "set (mode_list xs) = {x \<in> set xs. count_list xs x = max_count xs}"
  by (auto simp: mode_list_def)

lemma sorted_mode_list: "sorted (mode_list xs)"
  by (simp add: mode_list_def)

lemma mode_list_first:
  assumes "xs \<noteq> []"
  shows "\<exists>m rest. mode_list xs = m # rest \<and> m \<in> set xs \<and>
           (\<forall>v. count_list xs v \<le> count_list xs m) \<and>
           (\<forall>v. count_list xs v = count_list xs m \<longrightarrow> m \<le> v)"
proof -
  from max_count_attained [OF assms] have "set (mode_list xs) \<noteq> {}"
    unfolding set_mode_list by blast
  then obtain m rest where mr: "mode_list xs = m # rest" by (cases "mode_list xs") auto
  then have "m \<in> set (mode_list xs)" by simp
  then have m: "m \<in> set xs" "count_list xs m = max_count xs"
    unfolding set_mode_list by auto
  have le: "m \<le> v" if "count_list xs v = count_list xs m" for v
  proof -
    from that m have "count_list xs v \<noteq> 0" using count_list_0_iff [of xs m] by auto
    then have "v \<in> set xs" using count_list_0_iff [of xs v] by auto
    with that m have "v \<in> set (mode_list xs)" unfolding set_mode_list by simp
    with sorted_mode_list [of xs] mr show ?thesis by auto
  qed
  from mr m le count_le_max_count [of xs] show ?thesis by auto
qed

text \<open>
  C4, as the specification states it: among several values of greatest count the
  operation returns the one that occurs first in table order. In \<open>cars\<close>, \<open>Petrol\<close> and
  \<open>Diesel\<close> both occur twice and \<open>Petrol\<close> occurs first; the operation returns
  \<open>Diesel\<close>.
\<close>

theorem most_common_fuel_counterexample:
  "most_common_fuel cars = Inr (S ''Diesel'') \<and>
   spec_most_frequent [''Petrol'', ''Diesel'', ''Diesel'', ''Petrol''] = Some ''Petrol''"
  by (simp add: most_common_fuel_def bindE_def getitem_def cars_def item_def mode_list_def
      max_count_def spec_most_frequent_def)

text \<open>
  C4, amended: applied to a text column with at least one present value, the operation
  returns a present value of greatest count, and among several values of greatest count
  it returns the least one in the order of strings (the modes come sorted).
\<close>

theorem most_common_fuel_sorted:
  assumes F: "getitem clean ''Fuel_Type'' = Inr (ObjS xs)" and P: "dropna xs \<noteq> []"
  shows "\<exists>m. most_common_fuel clean = Inr (S m) \<and> m \<in> set (dropna xs) \<and>
           (\<forall>v. count_list (dropna xs) v \<le> count_list (dropna xs) m) \<and>
           (\<forall>v. count_list (dropna xs) v = count_list (dropna xs) m \<longrightarrow> m \<le> v)"
proof -
  from mode_list_first [OF P] obtain m rest where
    mr: "mode_list (dropna xs) = m # rest" and
    m: "m \<in> set (dropna xs)"
       "\<forall>v. count_list (dropna xs) v \<le> count_list (dropna xs) m"
       "\<forall>v. count_list (dropna xs) v = count_list (dropna xs) m \<longrightarrow> m \<le> v"
    by blast
  have "most_common_fuel clean = Inr (S m)"
    by (simp add: most_common_fuel_def bindE_def F item_def mr)
  with m show ?thesis by blast
qed


theorem most_common_fuel_sorted_witness:
  "getitem cars ''Fuel_Type''
     = Inr (ObjS [Some ''Petrol'', Some ''Diesel'', Some ''Diesel'', Some ''Petrol'']) \<and>
   dropna [Some ''Petrol'', Some ''Diesel'', Some ''Diesel'', Some ''Petrol''] \<noteq> [] \<and>
   (\<exists>m. most_common_fuel cars = Inr (S m) \<and>
      m \<in> set (dropna [Some ''Petrol'', Some ''Diesel'', Some ''Diesel'', Some ''Petrol'']) \<and>
      (\<forall>v. count_list (dropna [Some ''Petrol'', Some ''Diesel'', Some ''Diesel'', Some ''Petrol'']) v
           \<le> count_list (dropna [Some ''Petrol'', Some ''Diesel'', Some ''Diesel'', Some ''Petrol'']) m) \<and>
      (\<forall>v. count_list (dropna [Some ''Petrol'', Some ''Diesel'', Some ''Diesel'', Some ''Petrol'']) v
           = count_list (dropna [Some ''Petrol'', Some ''Diesel'', Some ''Diesel'', Some ''Petrol'']) m
           \<longrightarrow> m \<le> v))"
proof -
  have f: "getitem cars ''Fuel_Type''
     = Inr (ObjS [Some ''Petrol'', Some ''Diesel'', Some ''Diesel'', Some ''Petrol''])"
    by (simp add: getitem_def cars_def)
  have p: "dropna [Some ''Petrol'', Some ''Diesel'', Some ''Diesel'', Some ''Petrol''] \<noteq> []"
    by simp
  from f p most_common_fuel_sorted [OF f p] show ?thesis by (intro conjI)
qed















section \<open>Metrics of an empty subset and absent columns\<close>

lemma cars_no_company: "filter_engine cars [] (2010, 2015) = Inr no_cars"
  by (simp add: filter_engine_def bindE_def cars_company cars_year isin_def)
     (simp add: boolean_index_def cars_def no_cars_def)

lemma mean_empty:
  assumes "is_number (dtype_of p)" and "len_series p = 0"
  shows "mean p = Inr None"
  using assms by (cases p) (simp_all add: mean_def len_series_def)

text \<open>
  C7, amended: when the subset has no row and \<open>Price\<close> and \<open>Power_value\<close> are numeric
  columns, no metric raises; the row count reports 0 and the mean price and the mean power
  report NaN. There is no separate indicator for an undefined value.
\<close>

theorem empty_subset_metrics:
  assumes R: "rectangular df" and Z: "len df = 0"
    and P: "getitem df ''Price'' = Inr p" and NP: "is_number (dtype_of p)"
    and Q: "getitem df ''Power_value'' = Inr q" and NQ: "is_number (dtype_of q)"
  shows "run (metrics df) =
           ([Metric ''Selected Cars'' (Count 0),
             Metric ''Average Price'' (Float None),
             Metric ''Average Power'' (Float None)], None)"
proof -
  have len0: "len_series s = 0" if "map_of (data df) name = Some s" for name s
    using R Z that by (auto simp: rectangular_def list_all_iff dest!: map_of_SomeD)
  from P have "len_series p = 0" by (simp add: getitem_Inr len0)
  with NP have mp: "mean p = Inr None" by (rule mean_empty)
  from Q have "len_series q = 0" by (simp add: getitem_Inr len0)
  with NQ have mq: "mean q = Inr None" by (rule mean_empty)
  show ?thesis
    by (simp add: metrics_def average_metric_def bindE_def P Q mp mq Z py_round_def)
qed

theorem empty_subset_metrics_witness:
  "filter_engine cars [] (2010, 2015) = Inr no_cars \<and>
   rectangular no_cars \<and> len no_cars = 0 \<and>
   getitem no_cars ''Price'' = Inr (FloatS []) \<and> is_number (dtype_of (FloatS [])) \<and>
   getitem no_cars ''Power_value'' = Inr (FloatS []) \<and>
   run (metrics no_cars) =
     ([Metric ''Selected Cars'' (Count 0),
       Metric ''Average Price'' (Float None),
       Metric ''Average Power'' (Float None)], None)"
proof -
  have r: "rectangular no_cars"
    by (simp add: rectangular_def no_cars_def len_def len_series_def)
  have z: "len no_cars = 0" by (simp add: len_def no_cars_def)
  have p: "getitem no_cars ''Price'' = Inr (FloatS [])" by (simp add: getitem_def no_cars_def)
  have q: "getitem no_cars ''Power_value'' = Inr (FloatS [])"
    by (simp add: getitem_def no_cars_def)
  have n: "is_number (dtype_of (FloatS []))" by simp
  from cars_no_company r z p q n empty_subset_metrics [OF r z p n q n]
  show ?thesis by (intro conjI)
qed

text \<open>
  C7, as the specification states it: on a subset with no row the row count, the mean
  price and the mean power each report an explicit indicator "undefined", and a NaN is
  not passed on silently. With no company selected the page shows the count 0 and, for
  both means, the NaN that \<^verbatim>\<open>mean()\<close> returns on an empty column, passed through
  \<^verbatim>\<open>round\<close>; the rest of the page follows.
\<close>

theorem empty_selection_counterexample:
  "analysis_page cars nobody =
     ([Metric ''Selected Cars'' (Count 0),
       Metric ''Average Price'' (Float None),
       Metric ''Average Power'' (Float None),
       Chart (Histplot_kde ''Price''),
       Chart (Scatterplot ''Price'' ''Year''),
       Write_correlation ''Price'' ''Year'',
       Chart (Barplot ''Fuel_Type'' ''Price'' (Some ''Transmission''))], None)"
proof -
  have f: "filter_engine cars (sel_company nobody) (sel_year nobody) = Inr no_cars"
    using cars_no_company by (simp add: nobody_def)
  have a: "average_metric no_cars ''Average Price'' ''Price''
           = Inr [Metric ''Average Price'' (Float None)]"
    by (simp add: average_metric_def bindE_def getitem_def no_cars_def mean_def py_round_def)
  have b: "average_metric no_cars ''Average Power'' ''Power_value''
           = Inr [Metric ''Average Power'' (Float None)]"
    by (simp add: average_metric_def bindE_def getitem_def no_cars_def mean_def py_round_def)
  have l: "len no_cars = 0" by (simp add: len_def no_cars_def)
  have n: "num_cols no_cars = [''Year'', ''Price'', ''Kilometers_Driven'', ''Power_value'']"
    by (simp add: num_cols_eq no_cars_def)
  have c: "cat_cols no_cars = [''Company_Name'', ''Fuel_Type'', ''Transmission'']"
    by (simp add: cat_cols_eq no_cars_def)
  have k: "columns no_cars = [''Company_Name'', ''Year'', ''Price'', ''Kilometers_Driven'',
      ''Power_value'', ''Fuel_Type'', ''Transmission'', ''Insured'']"
    by (simp add: columns_def no_cars_def)
  show ?thesis
    by (simp add: analysis_page_def bindE_def cars_options cars_slider f n c
        univariate_def bivariate_def multivariate_def k metrics_def a b l)
       (simp add: nobody_def)
qed

lemma getitem_absent: "name \<notin> set (columns df) \<Longrightarrow> getitem df name = Inl (KeyError (S name))"
  by (simp add: getitem_def columns_def map_of_eq_None_iff [THEN iffD2])

lemma run_raises: "Inl e \<in> set ss \<Longrightarrow> \<exists>e'. snd (run ss) = Some e'"
  by (induction ss rule: run.induct) auto

lemma bindE_Inl: "bindE (Inl e) f = Inl e"
  by (simp add: bindE_def)

lemma filter_engine_columns: "filter_engine clean company year = Inr df \<Longrightarrow> columns df = columns clean"
  by (auto simp: filter_engine_def bindE_def boolean_index_def columns_def comp_def
      case_prod_unfold split: sum.splits)

lemma introduction_raises:
  assumes "name \<in> {''Price'', ''Kilometers_Driven'', ''Company_Name''}"
    and "name \<notin> set (columns clean)"
  shows "\<exists>e. snd (introduction_page clean) = Some e"
proof -
  from assms have "getitem clean name = Inl (KeyError (S name))" by (simp add: getitem_absent)
  with assms(1) show ?thesis
    unfolding introduction_page_def
    by (intro run_raises [of "KeyError (S name)"]) (auto simp: bindE_Inl)
qed

lemma analysis_raises:
  assumes "name \<in> {''Company_Name'', ''Year'', ''Price'', ''Power_value''}"
    and "name \<notin> set (columns clean)"
  shows "\<exists>e. snd (analysis_page clean c) = Some e"
proof (cases "bindE (company_options clean) (\<lambda>options.
             bindE (year_slider clean) (\<lambda>bounds.
               filter_engine clean (sel_company c) (sel_year c)))")
  case (Inl e)
  then show ?thesis by (simp add: analysis_page_def)
next
  case (Inr df)
  then have f: "filter_engine clean (sel_company c) (sel_year c) = Inr df"
    by (auto simp: bindE_def split: sum.splits)
  then have cols: "columns df = columns clean" by (rule filter_engine_columns)
  from f have "getitem clean ''Company_Name'' \<noteq> Inl (KeyError (S ''Company_Name''))"
    and "getitem clean ''Year'' \<noteq> Inl (KeyError (S ''Year''))"
    by (auto simp: filter_engine_def bindE_def split: sum.splits)
  with assms have n: "name \<in> {''Price'', ''Power_value''}"
    using getitem_absent [of name clean] by auto
  from assms(2) cols have "getitem df name = Inl (KeyError (S name))"
    by (simp add: getitem_absent)
  with n have "Inl (KeyError (S name)) \<in> set (metrics df)"
    by (auto simp: metrics_def average_metric_def bindE_Inl)
  then have "\<exists>e. snd (run (metrics df @
            [Inr [Chart (univariate (cat_cols df) (sel_col c) (sel_view c))],
             Inr (bivariate (num_cols df) (cat_cols df) (sel_x c) (sel_y c)),
             Inr (multivariate df (sel_method c))])) = Some e"
    by (intro run_raises [of "KeyError (S name)"]) simp
  then show ?thesis by (simp add: analysis_page_def Inr)
qed

lemma conclusion_raises:
  assumes "name \<in> {''Price'', ''Company_Name'', ''Fuel_Type''}"
    and "name \<notin> set (columns clean)"
  shows "\<exists>e. snd (conclusion_page argsort clean) = Some e"
proof -
  from assms(2) have g: "getitem clean name = Inl (KeyError (S name))" by (rule getitem_absent)
  have "(\<exists>e. highest_price_car clean = Inl e) \<or> (\<exists>e. most_common_fuel clean = Inl e)"
    using assms(1) g
    by (auto simp: highest_price_car_def most_common_fuel_def loc_def bindE_def
        split: sum.splits)
  then show ?thesis
  proof (elim disjE exE)
    fix e
    assume "highest_price_car clean = Inl e"
    then show ?thesis
      unfolding conclusion_page_def by (intro run_raises [of e]) (simp add: bindE_Inl)
  next
    fix e
    assume "most_common_fuel clean = Inl e"
    then show ?thesis
      unfolding conclusion_page_def by (intro run_raises [of e]) (simp add: bindE_Inl)
  qed
qed

lemma run_outputs: "u \<in> set (fst (run ss)) \<Longrightarrow> \<exists>out. Inr out \<in> set ss \<and> u \<in> set out"
  by (induction ss rule: run.induct) auto

lemma run_append_raises: "Inl e \<in> set ss \<Longrightarrow> run (ss @ ts) = run ss"
  by (induction ss rule: run.induct) auto

lemma run_complete:
  "snd (run ss) = None \<Longrightarrow> Inr out \<in> set ss \<Longrightarrow> set out \<subseteq> set (fst (run ss))"
  by (induction ss rule: run.induct) auto

lemma introduction_no_warning: "Warning w \<notin> set (fst (introduction_page clean))"
proof
  assume "Warning w \<in> set (fst (introduction_page clean))"
  from run_outputs [OF this [unfolded introduction_page_def]]
  show False by (auto simp: bindE_def split: sum.splits if_splits)
qed

lemma conclusion_no_warning: "Warning w \<notin> set (fst (conclusion_page argsort clean))"
proof
  assume "Warning w \<in> set (fst (conclusion_page argsort clean))"
  from run_outputs [OF this [unfolded conclusion_page_def]]
  show False by (auto simp: bindE_def split: sum.splits)
qed

lemma metrics_no_warning: "Warning w \<notin> set (fst (run (metrics df)))"
proof
  assume "Warning w \<in> set (fst (run (metrics df)))"
  from run_outputs [OF this]
  show False by (auto simp: metrics_def average_metric_def bindE_def split: sum.splits)
qed

lemma analysis_no_warning:
  assumes "name \<in> {''Company_Name'', ''Year'', ''Price'', ''Power_value''}"
    and "name \<notin> set (columns clean)"
  shows "Warning w \<notin> set (fst (analysis_page clean c))"
proof (cases "bindE (company_options clean) (\<lambda>options.
             bindE (year_slider clean) (\<lambda>bounds.
               filter_engine clean (sel_company c) (sel_year c)))")
  case (Inl e)
  then show ?thesis by (simp add: analysis_page_def)
next
  case (Inr df)
  then have f: "filter_engine clean (sel_company c) (sel_year c) = Inr df"
    by (auto simp: bindE_def split: sum.splits)
  then have cols: "columns df = columns clean" by (rule filter_engine_columns)
  from f have "getitem clean ''Company_Name'' \<noteq> Inl (KeyError (S ''Company_Name''))"
    and "getitem clean ''Year'' \<noteq> Inl (KeyError (S ''Year''))"
    by (auto simp: filter_engine_def bindE_def split: sum.splits)
  with assms have n: "name \<in> {''Price'', ''Power_value''}"
    using getitem_absent [of name clean] by auto
  from assms(2) cols have "getitem df name = Inl (KeyError (S name))"
    by (simp add: getitem_absent)
  with n have "Inl (KeyError (S name)) \<in> set (metrics df)"
    by (auto simp: metrics_def average_metric_def bindE_Inl)
  then have "analysis_page clean c = run (metrics df)"
    by (simp add: analysis_page_def Inr run_append_raises)
  then show ?thesis by (simp add: metrics_no_warning)
qed

text \<open>
  C8, amended: a column read by a metric or by the filter and absent from the table
  (\<open>Price\<close>, \<open>Kilometers_Driven\<close>, \<open>Company_Name\<close> on the Introduction page;
  \<open>Company_Name\<close>, \<open>Year\<close>, \<open>Price\<close>, \<open>Power_value\<close> on the Analysis page; \<open>Price\<close>,
  \<open>Company_Name\<close>, \<open>Fuel_Type\<close> on the Conclusions page) is not caught: the run of
  the page ends with an exception and shows no warning; with \<open>Price\<close> absent the
  Introduction page shows the number of cars and ends with \<^verbatim>\<open>KeyError\<close>. The coordinate
  columns are tested before use: when one is absent and the page does not raise, the page
  shows the information that they are not available.
\<close>

theorem absent_column_ends_run:
  assumes "name \<notin> set (columns clean)"
  shows "(name \<in> {''Price'', ''Kilometers_Driven'', ''Company_Name''} \<longrightarrow>
            (\<exists>e. snd (introduction_page clean) = Some e) \<and>
            Warning w \<notin> set (fst (introduction_page clean))) \<and>
         (name \<in> {''Company_Name'', ''Year'', ''Price'', ''Power_value''} \<longrightarrow>
            (\<exists>e. snd (analysis_page clean c) = Some e) \<and>
            Warning w \<notin> set (fst (analysis_page clean c))) \<and>
         (name \<in> {''Price'', ''Company_Name'', ''Fuel_Type''} \<longrightarrow>
            (\<exists>e. snd (conclusion_page argsort clean) = Some e) \<and>
            Warning w \<notin> set (fst (conclusion_page argsort clean))) \<and>
         (name = ''Price'' \<longrightarrow>
            introduction_page clean
              = ([Metric ''Total Cars'' (Count (len clean))], Some (KeyError (S ''Price'')))) \<and>
         (name \<in> {''Latitude'', ''Longitude''} \<and> snd (introduction_page clean) = None \<longrightarrow>
            Info ''Latitude and Longitude not available'' \<in> set (fst (introduction_page clean)))"
proof (intro conjI impI)
  show "\<exists>e. snd (introduction_page clean) = Some e"
    if "name \<in> {''Price'', ''Kilometers_Driven'', ''Company_Name''}"
    using that assms by (rule introduction_raises)
  show "Warning w \<notin> set (fst (introduction_page clean))" by (rule introduction_no_warning)
  show "\<exists>e. snd (analysis_page clean c) = Some e"
    if "name \<in> {''Company_Name'', ''Year'', ''Price'', ''Power_value''}"
    using that assms by (rule analysis_raises)
  show "Warning w \<notin> set (fst (analysis_page clean c))"
    if "name \<in> {''Company_Name'', ''Year'', ''Price'', ''Power_value''}"
    using that assms by (rule analysis_no_warning)
  show "\<exists>e. snd (conclusion_page argsort clean) = Some e"
    if "name \<in> {''Price'', ''Company_Name'', ''Fuel_Type''}"
    using that assms by (rule conclusion_raises)
  show "Warning w \<notin> set (fst (conclusion_page argsort clean))" by (rule conclusion_no_warning)
  show "introduction_page clean
          = ([Metric ''Total Cars'' (Count (len clean))], Some (KeyError (S ''Price'')))"
    if "name = ''Price''"
    using that assms by (simp add: introduction_page_def getitem_absent bindE_Inl)
  show "Info ''Latitude and Longitude not available'' \<in> set (fst (introduction_page clean))"
    if h: "name \<in> {''Latitude'', ''Longitude''} \<and> snd (introduction_page clean) = None"
  proof -
    from h assms have "\<not> (''Latitude'' \<in> set (columns clean) \<and> ''Longitude'' \<in> set (columns clean))"
      by auto
    then have "Inr [Info ''Latitude and Longitude not available'']
                \<in> set [Inr [Metric ''Total Cars'' (Count (len clean))],
      bindE (getitem clean ''Price'') (\<lambda>p.
        bindE (mean p) (\<lambda>m. Inr [Metric ''Average Price'' (Float (py_round m 2))])),
      bindE (getitem clean ''Kilometers_Driven'') (\<lambda>k.
        bindE (mean k) (\<lambda>m.
          bindE (py_int m) (\<lambda>i. Inr [Metric ''Average KM'' (Whole i)]))),
      bindE (getitem clean ''Company_Name'') (\<lambda>c.
        Inr [Metric ''Total Companies'' (Count (nunique c))]),
      Inr [Show_raw, Show_clean],
      Inr (if ''Latitude'' \<in> set (columns clean) \<and> ''Longitude'' \<in> set (columns clean)
           then [Map_of ''Latitude'' ''Longitude'']
           else [Info ''Latitude and Longitude not available''])]"
      by auto
    from run_complete [OF h [THEN conjunct2, unfolded introduction_page_def] this]
    show ?thesis by (simp add: introduction_page_def)
  qed
qed

text \<open>
  C8, as the specification states it: a referenced column that is absent is caught where
  it is used and replaced by a warning, and the rest of the page goes on. On the table
  \<open>cars\<close> without its \<open>Fuel_Type\<close> column the Conclusions page writes two lines and
  ends with the uncaught \<^verbatim>\<open>KeyError\<close>; the third and fourth line are not written and
  there is no warning.
\<close>

theorem absent_column_counterexample:
  "conclusion_page insertion_argsort (without ''Fuel_Type'' cars) =
     ([Write ''Total Records'' (Count 4), Write ''Highest Price Car'' (Value (S ''BMW''))],
      Some (KeyError (S ''Fuel_Type'')))"
  by (simp add: conclusion_page_def highest_price_car_def most_common_fuel_def bindE_def
      getitem_def idxmax_def loc_def len_def without_def cars_def)

lemma cars_introduction:
  "introduction_page cars =
     ([Metric ''Total Cars'' (Count 4), Metric ''Average Price'' (Float (Some 9)),
       Metric ''Average KM'' (Whole 38750), Metric ''Total Companies'' (Count 3),
       Show_raw, Show_clean, Info ''Latitude and Longitude not available''], None)"
  by (simp add: introduction_page_def bindE_def getitem_def cars_def len_def mean_def
      py_round_def round_half_even_def py_int_def nunique_def columns_def)

theorem absent_column_ends_run_witness:
  "''Price'' \<notin> set (columns (without ''Price'' cars)) \<and>
   (\<exists>e. snd (introduction_page (without ''Price'' cars)) = Some e) \<and>
   (\<exists>e. snd (analysis_page (without ''Price'' cars) nobody) = Some e) \<and>
   (\<exists>e. snd (conclusion_page insertion_argsort (without ''Price'' cars)) = Some e) \<and>
   introduction_page (without ''Price'' cars)
     = ([Metric ''Total Cars'' (Count (len (without ''Price'' cars)))],
        Some (KeyError (S ''Price''))) \<and>
   ''Latitude'' \<notin> set (columns cars) \<and> snd (introduction_page cars) = None \<and>
   Info ''Latitude and Longitude not available'' \<in> set (fst (introduction_page cars))"
proof -
  have a: "''Price'' \<notin> set (columns (without ''Price'' cars))"
    by (simp add: without_def cars_def columns_def)
  have b: "''Latitude'' \<notin> set (columns cars)" by (simp add: cars_def columns_def)
  have c: "snd (introduction_page cars) = None" by (simp add: cars_introduction)
  from a b c
    absent_column_ends_run [OF a, of "''Required columns missing''" nobody insertion_argsort]
    absent_column_ends_run [OF b, of "''Required columns missing''" nobody insertion_argsort]
  show ?thesis by (intro conjI) simp_all
qed

section \<open>Strongest correlation with Price: properties\<close>

lemma flat_price_corr:
  "corr_column (select_dtypes is_number flat_price) ''Price''
   = Inr [(''Year'', None), (''Price'', None), (''Kilometers_Driven'', None),
          (''Power_value'', None)]"
  by (simp add: flat_price_def select_dtypes_def corr_column_def pearson_def)

text \<open>With no correlation present nothing is sorted: whatever order the sort gives to
  equal values, the NaN entries keep the column order.\<close>

lemma flat_price_any_sort:
  assumes "argsort [] = []"
  shows "strongest_correlation argsort flat_price = Inr ''Price''"
  by (simp add: strongest_correlation_def flat_price_corr bindE_def sort_values_desc_def
      index_at_def assms)

text \<open>
  C5: the operation that reports the column most correlated with \<open>Price\<close> leaves \<open>Price\<close>
  itself out. The script leaves it out by taking the second label of the descending sort,
  which is another column only when \<open>Price\<close> comes first. In \<open>flat_price\<close> both cars have
  the same price, so every correlation with \<open>Price\<close> is NaN and the sorted column keeps
  the column order \<open>Year\<close>, \<open>Price\<close>, \<open>Kilometers_Driven\<close>, \<open>Power_value\<close>: the
  Conclusions page runs to its end and reports \<open>Price\<close> as the column most correlated
  with \<open>Price\<close>.
\<close>

theorem strongest_correlation_reports_price:
  "conclusion_page insertion_argsort flat_price =
     ([Write ''Total Records'' (Count 2),
       Write ''Highest Price Car'' (Value (S ''Audi'')),
       Write ''Most Common Fuel'' (Value (S ''Diesel'')),
       Write ''Strongest Correlation with Price'' (Name ''Price'')], None)"
proof -
  have a: "insertion_argsort [] = []" by (simp add: insertion_argsort_def)
  have h: "highest_price_car flat_price = Inr (S ''Audi'')"
    by (simp add: highest_price_car_def bindE_def getitem_def idxmax_def loc_def flat_price_def)
  have f: "most_common_fuel flat_price = Inr (S ''Diesel'')"
    by (simp add: most_common_fuel_def bindE_def getitem_def item_def mode_list_def
        max_count_def flat_price_def)
  have l: "len flat_price = 2" by (simp add: len_def flat_price_def)
  show ?thesis
    by (simp add: conclusion_page_def bindE_def h f l
        flat_price_any_sort [of insertion_argsort, OF a])
qed

end
